theory Spec2Isabelle
  imports Complex_Main
begin

section \<open>Text\<close>

text \<open>
  A Python \<open>str\<close> is modelled as a \<^typ>\<open>string\<close> whose characters are the code points
  below 256; every string the theorems below evaluate is ASCII. The functions of this
  section are the methods of \<open>str\<close> that \<open>main.py\<close> and \<open>urllib.parse\<close> call, on that range.
\<close>

definition code_point :: "char \<Rightarrow> nat" where
  "code_point c = of_char c"

text \<open>\<open>str.lower\<close>: of the code points below 256, \<open>A\<close>..\<open>Z\<close> and 192..222 without 215 change.\<close>

definition lower_char :: "char \<Rightarrow> char" where
  "lower_char c =
     (let n = code_point c
      in if (65 \<le> n \<and> n \<le> 90) \<or> (192 \<le> n \<and> n \<le> 222 \<and> n \<noteq> 215)
         then char_of (n + 32) else c)"

definition lower :: "string \<Rightarrow> string" where
  "lower s = map lower_char s"

text \<open>\<open>str.isspace\<close> on one character: 9..13, 28..32, 133 and 160.\<close>

definition isspace :: "char \<Rightarrow> bool" where
  "isspace c =
     (let n = code_point c
      in (9 \<le> n \<and> n \<le> 13) \<or> (28 \<le> n \<and> n \<le> 32) \<or> n = 133 \<or> n = 160)"

text \<open>\<open>str.strip()\<close> removes the white space at both ends.\<close>

definition strip :: "string \<Rightarrow> string" where
  "strip s = rev (dropWhile isspace (rev (dropWhile isspace s)))"

definition startswith :: "string \<Rightarrow> string \<Rightarrow> bool" where
  "startswith s p = (take (length p) s = p)"

definition endswith :: "string \<Rightarrow> string \<Rightarrow> bool" where
  "endswith s p = (length p \<le> length s \<and> drop (length s - length p) s = p)"

section \<open>Errors\<close>

text \<open>
  \<open>ValueError\<close> is what \<open>urllib.parse.urlsplit\<close> raises; \<open>ScorerError\<close> stands for any
  exception that leaves \<open>vectorizer.transform\<close> or \<open>model.predict_proba\<close>.
\<close>

datatype error = ValueError | ScorerError

section \<open>The globals of \<open>main.py\<close>\<close>

text \<open>
  \<open>T_SAFE\<close>, \<open>T_MAL\<close> and \<open>MODEL_VERSION\<close> are read from a pickle at start-up and the
  scorer is the loaded vectorizer and model, so they are fields of a record that every
  function receives. Probabilities and thresholds are real numbers. The field
  \<open>TRUSTED_DOMAINS\<close> is the global of that name; the set literal that \<open>main.py\<close> binds to
  it is the constant \<open>TRUSTED_DOMAINS_main\<close> below. \<open>check_bracketed_host\<close> is the routine
  \<open>_check_bracketed_host\<close> of \<open>urllib.parse\<close> (true when it does not raise), which rests on
  the \<open>ipaddress\<close> module and is left open.
\<close>

record globals =
  T_SAFE :: real
  T_MAL :: real
  MODEL_VERSION :: string
  TRUSTED_DOMAINS :: "string set"
  predict_proba :: "string \<Rightarrow> error + real"
  check_bracketed_host :: "string \<Rightarrow> bool"

definition TRUSTED_DOMAINS_main :: "string set" where
  "TRUSTED_DOMAINS_main =
     {''google.com'', ''https://translate.google.com/'', ''youtube.com'', ''facebook.com'',
      ''twitter.com'', ''instagram.com'', ''linkedin.com'', ''microsoft.com'', ''apple.com'',
      ''amazon.com'', ''netflix.com'', ''github.com'', ''paypal.com'', ''wikipedia.org'',
      ''whatsapp.com'', ''imamu.edu.sa'', ''edu.sa'', ''gov.sa'', ''moe.gov.sa'',
      ''kfupm.edu.sa'', ''kaust.edu.sa''}"

section \<open>\<open>classify_proba\<close>\<close>

definition classify_proba :: "globals \<Rightarrow> real \<Rightarrow> string" where
  "classify_proba g proba =
     (if proba \<ge> T_MAL g then ''malicious''
      else if proba \<le> T_SAFE g then ''benign''
      else ''suspicious'')"

text \<open>The order of the three labels that the specification names: benign, suspicious, malicious.\<close>

definition severity :: "string \<Rightarrow> nat" where
  "severity l = (if l = ''benign'' then 0 else if l = ''suspicious'' then 1 else 2)"

section \<open>\<open>urllib.parse.urlparse\<close>: the \<open>netloc\<close> of the result\<close>

text \<open>
  \<open>extract_base_domain\<close> reads only \<open>urlparse(url).netloc\<close>. The model follows
  \<open>urlsplit\<close> of CPython 3.11 up to the point where \<open>netloc\<close> is fixed; splitting the path,
  the query, the fragment and the parameters afterwards cannot raise. \<open>_checknetloc\<close>
  raises only when the NFKC form of a non-ASCII \<open>netloc\<close> holds one of \<open>/?#@:\<close>, which no
  code point below 256 produces, so it has no branch here.
\<close>

definition WHATWG_C0_CONTROL_OR_SPACE :: "char \<Rightarrow> bool" where
  "WHATWG_C0_CONTROL_OR_SPACE c = (code_point c \<le> 32)"

definition UNSAFE_URL_BYTES_TO_REMOVE :: "char list" where
  "UNSAFE_URL_BYTES_TO_REMOVE = [CHR 0x09, CHR 0x0D, CHR 0x0A]"

definition scheme_chars :: "char list" where
  "scheme_chars = ''abcdefghijklmnopqrstuvwxyz'' @ ''ABCDEFGHIJKLMNOPQRSTUVWXYZ'' @
                  ''0123456789'' @ ''+-.''"

text \<open>\<open>c.isascii() and c.isalpha()\<close>.\<close>

definition isascii_isalpha :: "char \<Rightarrow> bool" where
  "isascii_isalpha c =
     (let n = code_point c in (65 \<le> n \<and> n \<le> 90) \<or> (97 \<le> n \<and> n \<le> 122))"

text \<open>\<open>s.find(c)\<close>: the index of the first \<open>c\<close>, or \<open>-1\<close>.\<close>

definition find_char :: "string \<Rightarrow> char \<Rightarrow> int" where
  "find_char s c = (if c \<in> set s then int (length (takeWhile (\<lambda>x. x \<noteq> c) s)) else - 1)"

text \<open>\<open>_splitnetloc(url, 2)[0]\<close>: from index 2 up to the first of \<open>/\<close>, \<open>?\<close>, \<open>#\<close>.\<close>

definition splitnetloc :: "string \<Rightarrow> string" where
  "splitnetloc u = takeWhile (\<lambda>c. c \<notin> set ''/?#'') (drop 2 u)"

text \<open>\<open>netloc.partition('[')[2].partition(']')[0]\<close>, used when both brackets occur.\<close>

definition bracketed_host :: "string \<Rightarrow> string" where
  "bracketed_host netloc =
     takeWhile (\<lambda>c. c \<noteq> CHR '']'') (drop 1 (dropWhile (\<lambda>c. c \<noteq> CHR ''['') netloc))"

definition urlparse_netloc :: "globals \<Rightarrow> string \<Rightarrow> error + string" where
  "urlparse_netloc g url0 =
     (let url1 = dropWhile WHATWG_C0_CONTROL_OR_SPACE url0;
          url2 = filter (\<lambda>c. c \<notin> set UNSAFE_URL_BYTES_TO_REMOVE) url1;
          i = find_char url2 (CHR '':'');
          url3 = (if i > 0 \<and> isascii_isalpha (url2 ! 0)
                     \<and> list_all (\<lambda>c. c \<in> set scheme_chars) (take (nat i) url2)
                  then drop (nat i + 1) url2 else url2)
      in if take 2 url3 = ''//'' then
           (let netloc = splitnetloc url3
            in if (CHR ''['' \<in> set netloc \<and> CHR '']'' \<notin> set netloc)
                  \<or> (CHR '']'' \<in> set netloc \<and> CHR ''['' \<notin> set netloc)
               then Inl ValueError
               else if CHR ''['' \<in> set netloc \<and> CHR '']'' \<in> set netloc
                       \<and> \<not> check_bracketed_host g (bracketed_host netloc)
               then Inl ValueError
               else Inr netloc)
         else Inr [])"

section \<open>\<open>extract_base_domain\<close> and \<open>is_trusted_domain\<close>\<close>

definition extract_base_domain :: "globals \<Rightarrow> string \<Rightarrow> string" where
  "extract_base_domain g url =
     (case urlparse_netloc g url of
        Inr netloc \<Rightarrow>
          (let domain = lower netloc
           in if startswith domain ''www.'' then drop 4 domain else domain)
      | Inl e \<Rightarrow> lower url)"

definition is_trusted_domain :: "globals \<Rightarrow> string \<Rightarrow> bool" where
  "is_trusted_domain g url =
     (let domain = extract_base_domain g url
      in if domain \<in> TRUSTED_DOMAINS g then True
         else if \<exists>t \<in> TRUSTED_DOMAINS g. startswith t ''.'' \<and> endswith domain t then True
         else False)"

section \<open>\<open>model_predict\<close> and \<open>predict_url\<close>\<close>

text \<open>
  What \<open>predict_url\<close> reads and writes besides its arguments: the clock (the text that
  \<open>datetime.utcnow().isoformat()\<close> gives at this call), the records handed to the logger,
  and, to tell which path ran, the arguments with which the scorer was called.
\<close>

datatype json = JNull | JBool bool | JNum real | JStr string | JDict "(string \<times> json) list"

type_synonym dict = "(string \<times> json) list"

record world =
  utcnow :: string
  audit_log :: "dict list"
  scorer_calls :: "string list"

definition model_predict :: "globals \<Rightarrow> string \<Rightarrow> world \<Rightarrow> (error + string \<times> real) \<times> world" where
  "model_predict g url w =
     (let w1 = w\<lparr>scorer_calls := scorer_calls w @ [url]\<rparr>
      in case predict_proba g url of
           Inl e \<Rightarrow> (Inl e, w1)
         | Inr proba_malicious \<Rightarrow>
             (let label = classify_proba g proba_malicious
              in (Inr (label, proba_malicious), w1)))"

definition thresholds :: "globals \<Rightarrow> json" where
  "thresholds g = JDict [(''safe'', JNum (T_SAFE g)), (''malicious'', JNum (T_MAL g))]"

text \<open>
  \<open>data_url\<close> is \<open>data.url\<close>; \<open>request_client\<close> is \<open>request.client\<close>, reduced to its \<open>host\<close>
  when present. An exception of the scorer leaves \<open>predict_url\<close> before the response
  is built and before the logger is called.
\<close>

definition predict_url ::
  "globals \<Rightarrow> string \<Rightarrow> string option \<Rightarrow> world \<Rightarrow> (error + dict) \<times> world" where
  "predict_url g data_url request_client w =
     (let url = strip data_url;
          domain = extract_base_domain g url;
          client_host = (case request_client of Some host \<Rightarrow> JStr host | None \<Rightarrow> JNull);
          now = utcnow w @ ''Z'';
          trusted = is_trusted_domain g url
      in case (if trusted then (Inr (''benign'', 0.01, ''whitelist''), w)
               else (case model_predict g url w of
                       (Inl e, w1) \<Rightarrow> (Inl e, w1)
                     | (Inr (label, proba_malicious), w1) \<Rightarrow>
                         (Inr (label, proba_malicious, ''model''), w1))) of
           (Inl e, w1) \<Rightarrow> (Inl e, w1)
         | (Inr (label, proba_malicious, source), w1) \<Rightarrow>
             (let response =
                    [(''url'', JStr url),
                     (''domain'', JStr domain),
                     (''trusted_domain'', JBool trusted),
                     (''prediction'', JStr label),
                     (''probability_malicious'', JNum proba_malicious),
                     (''thresholds'', thresholds g),
                     (''model_version'', JStr (MODEL_VERSION g)),
                     (''source'', JStr source),
                     (''timestamp'', JStr now)];
                  log_entry =
                    [(''timestamp'', JStr now),
                     (''client_ip'', client_host),
                     (''url'', JStr url),
                     (''domain'', JStr domain),
                     (''prediction'', JStr label),
                     (''probability_malicious'', JNum proba_malicious),
                     (''trusted_domain'', JBool trusted),
                     (''thresholds'', thresholds g),
                     (''model_version'', JStr (MODEL_VERSION g)),
                     (''source'', JStr source)]
              in (Inr response, w1\<lparr>audit_log := audit_log w1 @ [log_entry]\<rparr>)))"

text \<open>
  A configuration with the trusted set of \<open>main.py\<close>; the thresholds, the version and
  the scorer come from the pickles, and the bracket check from the library.
\<close>

definition main_globals ::
  "real \<Rightarrow> real \<Rightarrow> string \<Rightarrow> (string \<Rightarrow> error + real) \<Rightarrow> (string \<Rightarrow> bool) \<Rightarrow> globals" where
  "main_globals safe mal version scorer chk =
     \<lparr>T_SAFE = safe, T_MAL = mal, MODEL_VERSION = version,
      TRUSTED_DOMAINS = TRUSTED_DOMAINS_main, predict_proba = scorer,
      check_bracketed_host = chk\<rparr>"

text \<open>
  The configuration of the specification's end-to-end examples: thresholds 0.3 and 0.7,
  a scorer that answers 0.92, and a bracket check that accepts.
\<close>

definition example_globals :: globals where
  "example_globals = main_globals 0.3 0.7 ''v2.0'' (\<lambda>u. Inr 0.92) (\<lambda>h. True)"

definition example_world :: world where
  "example_world = \<lparr>utcnow = ''2026-11-03T10:00:00'', audit_log = [], scorer_calls = []\<rparr>"

text \<open>
  What two evaluations are compared on: the error, or the response without its
  \<open>timestamp\<close> entry.
\<close>

definition apart_from_timestamp :: "error + dict \<Rightarrow> error + dict" where
  "apart_from_timestamp res =
     (case res of Inl e \<Rightarrow> Inl e | Inr r \<Rightarrow> Inr (filter (\<lambda>kv. fst kv \<noteq> ''timestamp'') r))"

section \<open>Threshold classification\<close>

lemma example_globals_fields:
  "T_SAFE example_globals = 0.3" "T_MAL example_globals = 0.7"
  "MODEL_VERSION example_globals = ''v2.0''"
  "TRUSTED_DOMAINS example_globals = TRUSTED_DOMAINS_main"
  "predict_proba example_globals = (\<lambda>u. Inr 0.92)"
  "check_bracketed_host example_globals = (\<lambda>h. True)"
  by (simp_all add: example_globals_def main_globals_def)

text \<open>
  C2. For every probability and every pair of thresholds, \<open>classify_proba\<close> returns one
  of the three labels, decided in the order of the source: malicious when the
  probability is at least \<open>T_MAL\<close>, else benign when it is at most \<open>T_SAFE\<close>, else
  suspicious. With thresholds 0.3 and 0.7: 0.3 and 0.0 are benign, 0.7 and 1.0 are
  malicious, 0.5 is suspicious.
\<close>

theorem classify_proba_three_levels:
  "classify_proba g p \<in> {''benign'', ''suspicious'', ''malicious''}
   \<and> (classify_proba g p = ''malicious'' \<longleftrightarrow> p \<ge> T_MAL g)
   \<and> (classify_proba g p = ''benign'' \<longleftrightarrow> \<not> p \<ge> T_MAL g \<and> p \<le> T_SAFE g)
   \<and> (classify_proba g p = ''suspicious'' \<longleftrightarrow> \<not> p \<ge> T_MAL g \<and> \<not> p \<le> T_SAFE g)
   \<and> (T_SAFE g = 0.3 \<and> T_MAL g = 0.7 \<longrightarrow>
        classify_proba g 0.3 = ''benign'' \<and> classify_proba g 0.7 = ''malicious''
        \<and> classify_proba g 0.5 = ''suspicious'' \<and> classify_proba g 0.0 = ''benign''
        \<and> classify_proba g 1.0 = ''malicious'')"
  by (simp add: classify_proba_def)

theorem classify_proba_three_levels_witness:
  "T_SAFE example_globals = 0.3 \<and> T_MAL example_globals = 0.7
   \<and> classify_proba example_globals 0.3 = ''benign''
   \<and> classify_proba example_globals 0.7 = ''malicious''
   \<and> classify_proba example_globals 0.5 = ''suspicious''
   \<and> classify_proba example_globals 0.0 = ''benign''
   \<and> classify_proba example_globals 1.0 = ''malicious''"
  using classify_proba_three_levels [of example_globals "0.5"]
  by (simp add: example_globals_fields)

text \<open>
  C5. For thresholds with \<open>T_SAFE \<le> T_MAL\<close> and probabilities \<open>p1 < p2\<close>, the label of
  \<open>p1\<close> is never more severe than the label of \<open>p2\<close>.
\<close>

theorem classify_proba_monotone:
  "T_SAFE g \<le> T_MAL g \<Longrightarrow> p1 < p2 \<Longrightarrow>
   severity (classify_proba g p1) \<le> severity (classify_proba g p2)"
  by (simp add: classify_proba_def severity_def)

theorem classify_proba_monotone_witness:
  "T_SAFE example_globals \<le> T_MAL example_globals \<and> (0.2 :: real) < 0.8
   \<and> severity (classify_proba example_globals 0.2) \<le> severity (classify_proba example_globals 0.8)"
proof -
  have t: "T_SAFE example_globals \<le> T_MAL example_globals"
    by (simp add: example_globals_fields)
  have p: "(0.2 :: real) < 0.8" by simp
  from classify_proba_monotone [OF t p] t p show ?thesis by simp
qed

section \<open>Facts about the text functions and the parser\<close>

lemma rstrip_keeps_head:
  assumes "xs = [] \<or> \<not> P (hd xs)"
  shows "dropWhile P (rev (dropWhile P (rev xs))) = rev (dropWhile P (rev xs))"
proof (cases "rev (dropWhile P (rev xs)) = []")
  case True
  then show ?thesis by (metis dropWhile.simps(1))
next
  case False
  have "rev xs = takeWhile P (rev xs) @ dropWhile P (rev xs)" by simp
  then have "rev (rev xs) = rev (takeWhile P (rev xs) @ dropWhile P (rev xs))" by simp
  then have split: "xs = rev (dropWhile P (rev xs)) @ rev (takeWhile P (rev xs))"
    by (simp only: rev_rev_ident rev_append)
  from False split have "hd (rev (dropWhile P (rev xs))) = hd xs"
    by (metis hd_append2)
  moreover from False split have "xs \<noteq> []" by auto
  ultimately have "\<not> P (hd (rev (dropWhile P (rev xs))))" using assms by simp
  then show ?thesis by (simp add: dropWhile_eq_self_iff)
qed

lemma strip_idem: "strip (strip s) = strip s"
proof -
  have "dropWhile isspace s = [] \<or> \<not> isspace (hd (dropWhile isspace s))"
    using hd_dropWhile [of isspace s] by blast
  then have "dropWhile isspace (rev (dropWhile isspace (rev (dropWhile isspace s))))
             = rev (dropWhile isspace (rev (dropWhile isspace s)))"
    by (rule rstrip_keeps_head)
  then show ?thesis
    by (simp add: strip_def)
qed

lemma strip_surrounding:
  assumes a: "list_all isspace a" and b: "list_all isspace b"
  shows "strip (a @ s @ b) = strip s"
proof -
  have 1: "dropWhile isspace (a @ s @ b) = dropWhile isspace (s @ b)"
    using a by (simp add: list_all_iff)
  show ?thesis
  proof (cases "list_all isspace s")
    case True
    have e1: "dropWhile isspace (a @ s @ b) = []"
      using a b True by (simp add: list_all_iff)
    have e2: "dropWhile isspace s = []"
      using True by (simp add: list_all_iff)
    show ?thesis unfolding strip_def e1 e2 by simp
  next
    case False
    then have 2: "dropWhile isspace (s @ b) = dropWhile isspace s @ b"
      by (auto simp add: list_all_iff)
    have "\<And>x. x \<in> set (rev b) \<Longrightarrow> isspace x"
      using b by (simp add: list_all_iff)
    then have "dropWhile isspace (rev b @ rev (dropWhile isspace s))
          = dropWhile isspace (rev (dropWhile isspace s))"
      by (rule dropWhile_append2)
    with 1 2 show ?thesis by (simp add: strip_def)
  qed
qed

lemma urlparse_netloc_no_slash:
  assumes "CHR ''/'' \<notin> set url"
  shows "urlparse_netloc g url = Inr []"
proof -
  define url2 where
    "url2 = filter (\<lambda>c. c \<notin> set UNSAFE_URL_BYTES_TO_REMOVE) (dropWhile WHATWG_C0_CONTROL_OR_SPACE url)"
  have sub: "set url2 \<subseteq> set url"
    by (auto simp add: url2_def dest: set_dropWhileD)
  have no: "take 2 u \<noteq> ''//''" if "set u \<subseteq> set url" for u
  proof
    assume "take 2 u = ''//''"
    then have "CHR ''/'' \<in> set (take 2 u)" by simp
    then have "CHR ''/'' \<in> set u" by (rule in_set_takeD)
    with that assms show False by blast
  qed
  have d: "set (drop n url2) \<subseteq> set url" for n
    using sub set_drop_subset [of n url2] by blast
  show ?thesis
    unfolding urlparse_netloc_def Let_def url2_def [symmetric]
    using no [OF sub] no [OF d] by simp
qed

section \<open>Trust matching\<close>

lemma startswith_iff: "startswith s p \<longleftrightarrow> (\<exists>r. s = p @ r)"
proof
  assume "startswith s p"
  then have "s = p @ drop (length p) s"
    unfolding startswith_def by (metis append_take_drop_id)
  then show "\<exists>r. s = p @ r" ..
next
  assume "\<exists>r. s = p @ r"
  then show "startswith s p" by (auto simp add: startswith_def)
qed

lemma endswith_iff: "endswith s p \<longleftrightarrow> (\<exists>r. s = r @ p)"
proof
  assume "endswith s p"
  then have "s = take (length s - length p) s @ p"
    unfolding endswith_def by (metis append_take_drop_id)
  then show "\<exists>r. s = r @ p" ..
next
  assume "\<exists>r. s = r @ p"
  then show "endswith s p" by (auto simp add: endswith_def)
qed

lemma is_trusted_domain_iff:
  "is_trusted_domain g url \<longleftrightarrow>
     extract_base_domain g url \<in> TRUSTED_DOMAINS g
     \<or> (\<exists>t \<in> TRUSTED_DOMAINS g. startswith t ''.'' \<and> endswith (extract_base_domain g url) t)"
  by (simp add: is_trusted_domain_def Let_def)

lemma TRUSTED_DOMAINS_main_no_suffix_entry:
  "t \<in> TRUSTED_DOMAINS_main \<Longrightarrow> \<not> startswith t ''.''"
  by (auto simp add: TRUSTED_DOMAINS_main_def startswith_def)

lemma is_trusted_domain_main:
  "TRUSTED_DOMAINS g = TRUSTED_DOMAINS_main \<Longrightarrow>
   is_trusted_domain g url \<longleftrightarrow> extract_base_domain g url \<in> TRUSTED_DOMAINS_main"
  using TRUSTED_DOMAINS_main_no_suffix_entry by (auto simp add: is_trusted_domain_iff)

lemma resolve_mail_kfupm:
  "extract_base_domain g ''https://mail.kfupm.edu.sa/'' = ''mail.kfupm.edu.sa''"
  by code_simp

lemma resolve_google: "extract_base_domain g ''https://google.com/'' = ''google.com''"
  by code_simp

lemma resolve_evil_google: "extract_base_domain g ''http://evil-google.com/'' = ''evil-google.com''"
  by code_simp

text \<open>
  C3. \<open>is_trusted_domain\<close> holds exactly when the resolved domain is a member of the
  trusted set, or some entry of the set begins with a dot and the resolved domain ends
  with that entry. A URL that resolves to \<open>mail.kfupm.edu.sa\<close> is trusted when the set
  holds the suffix entry \<open>.edu.sa\<close>; with the set of \<open>main.py\<close>, a URL that resolves to
  \<open>google.com\<close> is trusted as a member of the set, and one that resolves to
  \<open>evil-google.com\<close> is not trusted.
\<close>

theorem is_trusted_domain_matching:
  "(is_trusted_domain g url \<longleftrightarrow>
      extract_base_domain g url \<in> TRUSTED_DOMAINS g
      \<or> (\<exists>t \<in> TRUSTED_DOMAINS g. (\<exists>r. t = ''.'' @ r) \<and> (\<exists>p. extract_base_domain g url = p @ t)))
   \<and> (extract_base_domain g url = ''mail.kfupm.edu.sa'' \<and> ''.edu.sa'' \<in> TRUSTED_DOMAINS g
        \<longrightarrow> is_trusted_domain g url)
   \<and> (extract_base_domain g url = ''google.com'' \<and> TRUSTED_DOMAINS g = TRUSTED_DOMAINS_main
        \<longrightarrow> ''google.com'' \<in> TRUSTED_DOMAINS g \<and> is_trusted_domain g url)
   \<and> (extract_base_domain g url = ''evil-google.com'' \<and> TRUSTED_DOMAINS g = TRUSTED_DOMAINS_main
        \<longrightarrow> \<not> is_trusted_domain g url)"
proof -
  have a: "is_trusted_domain g url \<longleftrightarrow>
      extract_base_domain g url \<in> TRUSTED_DOMAINS g
      \<or> (\<exists>t \<in> TRUSTED_DOMAINS g. (\<exists>r. t = ''.'' @ r) \<and> (\<exists>p. extract_base_domain g url = p @ t))"
    by (simp only: is_trusted_domain_iff startswith_iff endswith_iff)
  have b: "is_trusted_domain g url"
    if "extract_base_domain g url = ''mail.kfupm.edu.sa''" "''.edu.sa'' \<in> TRUSTED_DOMAINS g"
  proof -
    have "startswith ''.edu.sa'' ''.''" "endswith ''mail.kfupm.edu.sa'' ''.edu.sa''"
      by (simp_all add: startswith_def endswith_def)
    with that show ?thesis unfolding is_trusted_domain_iff by metis
  qed
  have c: "''google.com'' \<in> TRUSTED_DOMAINS g \<and> is_trusted_domain g url"
    if "extract_base_domain g url = ''google.com''" "TRUSTED_DOMAINS g = TRUSTED_DOMAINS_main"
    using that by (simp add: is_trusted_domain_main TRUSTED_DOMAINS_main_def)
  have d: "\<not> is_trusted_domain g url"
    if "extract_base_domain g url = ''evil-google.com''" "TRUSTED_DOMAINS g = TRUSTED_DOMAINS_main"
    using that by (simp add: is_trusted_domain_main TRUSTED_DOMAINS_main_def)
  from b c d show ?thesis by (intro conjI impI a) blast+
qed

theorem is_trusted_domain_matching_witness:
  "(extract_base_domain (example_globals\<lparr>TRUSTED_DOMAINS := {''.edu.sa''}\<rparr>)
       ''https://mail.kfupm.edu.sa/'' = ''mail.kfupm.edu.sa''
    \<and> ''.edu.sa'' \<in> TRUSTED_DOMAINS (example_globals\<lparr>TRUSTED_DOMAINS := {''.edu.sa''}\<rparr>)
    \<and> is_trusted_domain (example_globals\<lparr>TRUSTED_DOMAINS := {''.edu.sa''}\<rparr>)
         ''https://mail.kfupm.edu.sa/'')
   \<and> (extract_base_domain example_globals ''https://google.com/'' = ''google.com''
      \<and> TRUSTED_DOMAINS example_globals = TRUSTED_DOMAINS_main
      \<and> is_trusted_domain example_globals ''https://google.com/'')
   \<and> (extract_base_domain example_globals ''http://evil-google.com/'' = ''evil-google.com''
      \<and> \<not> is_trusted_domain example_globals ''http://evil-google.com/'')"
proof -
  let ?g = "example_globals\<lparr>TRUSTED_DOMAINS := {''.edu.sa''}\<rparr>"
  have m: "''.edu.sa'' \<in> TRUSTED_DOMAINS ?g" by simp
  have t: "TRUSTED_DOMAINS example_globals = TRUSTED_DOMAINS_main"
    by (simp add: example_globals_fields)
  from is_trusted_domain_matching [of ?g "''https://mail.kfupm.edu.sa/''"] m
  have 1: "is_trusted_domain ?g ''https://mail.kfupm.edu.sa/''"
    using resolve_mail_kfupm [of ?g] by blast
  from is_trusted_domain_matching [of example_globals "''https://google.com/''"] t
  have 2: "is_trusted_domain example_globals ''https://google.com/''"
    using resolve_google [of example_globals] by blast
  from is_trusted_domain_matching [of example_globals "''http://evil-google.com/''"] t
  have 3: "\<not> is_trusted_domain example_globals ''http://evil-google.com/''"
    using resolve_evil_google [of example_globals] by blast
  from 1 2 3 m t show ?thesis
    by (simp only: resolve_mail_kfupm resolve_google resolve_evil_google simp_thms)
qed

text \<open>
  With the set of \<open>main.py\<close> itself, where \<open>edu.sa\<close> has no leading dot, the same URL is
  not trusted.
\<close>

lemma mail_kfupm_not_trusted_main:
  "TRUSTED_DOMAINS g = TRUSTED_DOMAINS_main \<Longrightarrow> \<not> is_trusted_domain g ''https://mail.kfupm.edu.sa/''"
  by (simp add: is_trusted_domain_main resolve_mail_kfupm TRUSTED_DOMAINS_main_def)

section \<open>Domain resolution\<close>

lemma extract_base_domain_Inr:
  "urlparse_netloc g url = Inr n \<Longrightarrow>
   extract_base_domain g url = (if \<exists>r. lower n = ''www.'' @ r then drop 4 (lower n) else lower n)"
  by (simp add: extract_base_domain_def Let_def startswith_iff del: append.simps)

lemma extract_base_domain_Inl:
  "urlparse_netloc g url = Inl e \<Longrightarrow> extract_base_domain g url = lower url"
  by (simp add: extract_base_domain_def)

lemma extract_base_domain_no_slash:
  "CHR ''/'' \<notin> set url \<Longrightarrow> extract_base_domain g url = []"
  by (simp add: extract_base_domain_def urlparse_netloc_no_slash lower_def startswith_def)

lemma resolve_www_Google: "extract_base_domain g ''https://www.Google.com/x'' = ''google.com''"
  by code_simp

lemma resolve_www_www: "extract_base_domain g ''HTTP://WWW.WWW.X.com?q'' = ''www.x.com''"
  by code_simp

lemma resolve_userinfo_port:
  "extract_base_domain g ''https://user@Google.com:8080/x'' = ''user@google.com:8080''"
  by code_simp

lemma parse_open_bracket: "urlparse_netloc g ''http://[::1'' = Inl ValueError"
  by code_simp

lemma resolve_open_bracket: "extract_base_domain g ''http://[::1'' = ''http://[::1''"
  by code_simp

lemma resolve_hello_world: "extract_base_domain g ''hello world'' = []"
  by code_simp

lemma lower_hello_world: "lower ''hello world'' = ''hello world''"
  by code_simp

text \<open>
  C4 as stated does not hold. The text \<open>hello world\<close> is not a URL, yet \<open>urlparse\<close>
  accepts it with an empty \<open>netloc\<close>: the resolver returns the empty string, not the
  lower-cased input.
\<close>

theorem extract_base_domain_non_url_counterexample:
  "extract_base_domain example_globals ''hello world'' \<noteq> lower ''hello world''"
  by (simp add: resolve_hello_world lower_hello_world)

text \<open>
  C4, as the code has it. \<open>extract_base_domain\<close> returns a string on every input. When
  \<open>urlparse\<close> returns, the result is the \<open>netloc\<close> of the URL (user information and
  port included), lower-cased, without one leading \<open>www.\<close>; for an input without any
  \<open>/\<close>, such as the empty string, a bare host name or other text, \<open>urlparse\<close> returns
  an empty \<open>netloc\<close> and the result is the empty string. Only when \<open>urlparse\<close> raises,
  as on an unbalanced bracket in the \<open>netloc\<close>, the result is the lower-cased input.
\<close>

theorem extract_base_domain_contract:
  "(\<forall>n. urlparse_netloc g url = Inr n \<longrightarrow>
        extract_base_domain g url
          = (if \<exists>r. lower n = ''www.'' @ r then drop 4 (lower n) else lower n))
   \<and> (\<forall>e. urlparse_netloc g url = Inl e \<longrightarrow> extract_base_domain g url = lower url)
   \<and> (CHR ''/'' \<notin> set url \<longrightarrow> urlparse_netloc g url = Inr [] \<and> extract_base_domain g url = [])
   \<and> extract_base_domain g ''https://www.Google.com/x'' = ''google.com''
   \<and> extract_base_domain g ''HTTP://WWW.WWW.X.com?q'' = ''www.x.com''
   \<and> extract_base_domain g ''https://user@Google.com:8080/x'' = ''user@google.com:8080''
   \<and> urlparse_netloc g ''http://[::1'' = Inl ValueError
   \<and> extract_base_domain g ''http://[::1'' = ''http://[::1''"
proof (intro conjI allI impI)
  fix n assume "urlparse_netloc g url = Inr n"
  then show "extract_base_domain g url
               = (if \<exists>r. lower n = ''www.'' @ r then drop 4 (lower n) else lower n)"
    by (rule extract_base_domain_Inr)
next
  fix e assume "urlparse_netloc g url = Inl e"
  then show "extract_base_domain g url = lower url"
    by (rule extract_base_domain_Inl)
next
  assume "CHR ''/'' \<notin> set url"
  then show "urlparse_netloc g url = Inr []"
    by (rule urlparse_netloc_no_slash)
next
  assume "CHR ''/'' \<notin> set url"
  then show "extract_base_domain g url = []"
    by (rule extract_base_domain_no_slash)
qed (rule resolve_www_Google resolve_www_www resolve_userinfo_port parse_open_bracket
       resolve_open_bracket)+

lemma parse_www_Google: "urlparse_netloc g ''https://www.Google.com/x'' = Inr ''www.Google.com''"
  by code_simp

lemma lower_www_Google: "lower ''www.Google.com'' = ''www.google.com''"
  by code_simp

theorem extract_base_domain_contract_witness:
  "(urlparse_netloc example_globals ''https://www.Google.com/x'' = Inr ''www.Google.com''
    \<and> lower ''www.Google.com'' = ''www.'' @ ''google.com''
    \<and> extract_base_domain example_globals ''https://www.Google.com/x'' = drop 4 (lower ''www.Google.com''))
   \<and> (urlparse_netloc example_globals ''http://[::1'' = Inl ValueError
      \<and> extract_base_domain example_globals ''http://[::1'' = lower ''http://[::1'')
   \<and> (CHR ''/'' \<notin> set ''hello world'' \<and> extract_base_domain example_globals ''hello world'' = [])"
proof -
  have l: "lower ''www.Google.com'' = ''www.'' @ ''google.com''"
    by (simp add: lower_www_Google)
  then have ex: "\<exists>r. lower ''www.Google.com'' = ''www.'' @ r" ..
  from extract_base_domain_contract [of example_globals "''https://www.Google.com/x''"]
  have 1: "extract_base_domain example_globals ''https://www.Google.com/x''
             = drop 4 (lower ''www.Google.com'')"
    using parse_www_Google [of example_globals] ex by (simp del: append.simps)
  from extract_base_domain_contract [of example_globals "''http://[::1''"]
  have 2: "extract_base_domain example_globals ''http://[::1'' = lower ''http://[::1''"
    using parse_open_bracket [of example_globals] by blast
  have s: "CHR ''/'' \<notin> set ''hello world''" by simp
  from extract_base_domain_contract [of example_globals "''hello world''"] s
  have 3: "extract_base_domain example_globals ''hello world'' = []" by blast
  from 1 2 3 l s parse_www_Google [of example_globals] parse_open_bracket [of example_globals]
  show ?thesis by (intro conjI)
qed

section \<open>The two paths of \<open>predict_url\<close>\<close>

lemma urlparse_netloc_scorer [simp]:
  "urlparse_netloc (g\<lparr>predict_proba := s\<rparr>) url = urlparse_netloc g url"
  by (simp add: urlparse_netloc_def cong del: if_weak_cong let_weak_cong)

lemma extract_base_domain_scorer [simp]:
  "extract_base_domain (g\<lparr>predict_proba := s\<rparr>) url = extract_base_domain g url"
  by (simp add: extract_base_domain_def)

lemma is_trusted_domain_scorer [simp]:
  "is_trusted_domain (g\<lparr>predict_proba := s\<rparr>) url = is_trusted_domain g url"
  by (simp add: is_trusted_domain_def)

lemma MODEL_VERSION_scorer: "MODEL_VERSION (g\<lparr>predict_proba := s\<rparr>) = MODEL_VERSION g"
  by simp

lemma thresholds_scorer [simp]: "thresholds (g\<lparr>predict_proba := s\<rparr>) = thresholds g"
  by (simp add: thresholds_def)

lemma predict_url_trusted_eq:
  assumes "is_trusted_domain g (strip data_url)"
  shows "predict_url g data_url c w =
          (Inr [(''url'', JStr (strip data_url)),
                (''domain'', JStr (extract_base_domain g (strip data_url))),
                (''trusted_domain'', JBool True),
                (''prediction'', JStr ''benign''),
                (''probability_malicious'', JNum 0.01),
                (''thresholds'', thresholds g),
                (''model_version'', JStr (MODEL_VERSION g)),
                (''source'', JStr ''whitelist''),
                (''timestamp'', JStr (utcnow w @ ''Z''))],
           w\<lparr>audit_log := audit_log w @ [
               [(''timestamp'', JStr (utcnow w @ ''Z'')),
                (''client_ip'', case c of Some host \<Rightarrow> JStr host | None \<Rightarrow> JNull),
                (''url'', JStr (strip data_url)),
                (''domain'', JStr (extract_base_domain g (strip data_url))),
                (''prediction'', JStr ''benign''),
                (''probability_malicious'', JNum 0.01),
                (''trusted_domain'', JBool True),
                (''thresholds'', thresholds g),
                (''model_version'', JStr (MODEL_VERSION g)),
                (''source'', JStr ''whitelist'')]]\<rparr>)"
  unfolding predict_url_def Let_def using assms by simp

lemma predict_url_model_eq:
  assumes "\<not> is_trusted_domain g (strip data_url)"
      and "predict_proba g (strip data_url) = Inr p"
  shows "predict_url g data_url c w =
          (Inr [(''url'', JStr (strip data_url)),
                (''domain'', JStr (extract_base_domain g (strip data_url))),
                (''trusted_domain'', JBool False),
                (''prediction'', JStr (classify_proba g p)),
                (''probability_malicious'', JNum p),
                (''thresholds'', thresholds g),
                (''model_version'', JStr (MODEL_VERSION g)),
                (''source'', JStr ''model''),
                (''timestamp'', JStr (utcnow w @ ''Z''))],
           w\<lparr>scorer_calls := scorer_calls w @ [strip data_url],
             audit_log := audit_log w @ [
               [(''timestamp'', JStr (utcnow w @ ''Z'')),
                (''client_ip'', case c of Some host \<Rightarrow> JStr host | None \<Rightarrow> JNull),
                (''url'', JStr (strip data_url)),
                (''domain'', JStr (extract_base_domain g (strip data_url))),
                (''prediction'', JStr (classify_proba g p)),
                (''probability_malicious'', JNum p),
                (''trusted_domain'', JBool False),
                (''thresholds'', thresholds g),
                (''model_version'', JStr (MODEL_VERSION g)),
                (''source'', JStr ''model'')]]\<rparr>)"
  unfolding predict_url_def model_predict_def Let_def using assms by simp

lemma predict_url_scorer_fails:
  assumes "\<not> is_trusted_domain g (strip data_url)"
      and "predict_proba g (strip data_url) = Inl e"
  shows "predict_url g data_url c w
           = (Inl e, w\<lparr>scorer_calls := scorer_calls w @ [strip data_url]\<rparr>)"
  unfolding predict_url_def model_predict_def Let_def using assms by simp

lemma response_fields:
  fixes r :: dict
  assumes "r = [(''url'', u), (''domain'', d), (''trusted_domain'', t), (''prediction'', l),
                (''probability_malicious'', p), (''thresholds'', th), (''model_version'', v),
                (''source'', s), (''timestamp'', ts)]"
  shows "map_of r ''url'' = Some u" "map_of r ''domain'' = Some d"
        "map_of r ''trusted_domain'' = Some t" "map_of r ''prediction'' = Some l"
        "map_of r ''probability_malicious'' = Some p" "map_of r ''source'' = Some s"
        "filter (\<lambda>kv. fst kv \<noteq> ''timestamp'') r =
           [(''url'', u), (''domain'', d), (''trusted_domain'', t), (''prediction'', l),
            (''probability_malicious'', p), (''thresholds'', th), (''model_version'', v),
            (''source'', s)]"
  unfolding assms by simp_all

lemma log_entry_url:
  fixes r :: dict
  assumes "r = [(''timestamp'', ts), (''client_ip'', ip), (''url'', u), (''domain'', d),
                (''prediction'', l), (''probability_malicious'', p), (''trusted_domain'', t),
                (''thresholds'', th), (''model_version'', v), (''source'', s)]"
  shows "map_of r ''url'' = Some u"
  unfolding assms by simp



lemma predict_url_scorer_irrelevant:
  assumes t: "is_trusted_domain g (strip data_url)"
  shows "predict_url (g\<lparr>predict_proba := s\<rparr>) data_url c w = predict_url g data_url c w"
proof -
  from t have t': "is_trusted_domain (g\<lparr>predict_proba := s\<rparr>) (strip data_url)" by simp
  show ?thesis
    unfolding predict_url_trusted_eq [OF t] predict_url_trusted_eq [OF t']
    by (simp only: extract_base_domain_scorer thresholds_scorer MODEL_VERSION_scorer)
qed

lemma is_trusted_example: "is_trusted_domain example_globals (strip ''https://google.com/'')"
  by code_simp

section \<open>The decision\<close>

text \<open>
  C1. When the resolved domain of the submitted URL is trusted, the response has
  prediction \<open>benign\<close>, probability 0.01 and source \<open>whitelist\<close>; the scorer is not called,
  and with any other scorer in its place the response and the logged record are the same.
\<close>

theorem trust_override:
  "is_trusted_domain g (strip data_url) \<Longrightarrow>
     (\<exists>r. fst (predict_url g data_url c w) = Inr r
          \<and> map_of r ''prediction'' = Some (JStr ''benign'')
          \<and> map_of r ''probability_malicious'' = Some (JNum 0.01)
          \<and> map_of r ''source'' = Some (JStr ''whitelist''))
     \<and> scorer_calls (snd (predict_url g data_url c w)) = scorer_calls w
     \<and> (\<forall>s. predict_url (g\<lparr>predict_proba := s\<rparr>) data_url c w = predict_url g data_url c w)"
proof (intro conjI allI)
  assume t: "is_trusted_domain g (strip data_url)"
  note eq = predict_url_trusted_eq [OF t, of c w]
  show "\<exists>r. fst (predict_url g data_url c w) = Inr r
          \<and> map_of r ''prediction'' = Some (JStr ''benign'')
          \<and> map_of r ''probability_malicious'' = Some (JNum 0.01)
          \<and> map_of r ''source'' = Some (JStr ''whitelist'')"
    unfolding eq fst_conv
    by (rule exI, intro conjI, rule refl) (rule response_fields [OF refl])+
  show "scorer_calls (snd (predict_url g data_url c w)) = scorer_calls w"
    unfolding eq snd_conv by simp
  fix s
  from t show "predict_url (g\<lparr>predict_proba := s\<rparr>) data_url c w = predict_url g data_url c w"
    by (rule predict_url_scorer_irrelevant)
qed

theorem trust_override_witness:
  "is_trusted_domain example_globals (strip ''https://google.com/'')
   \<and> (\<exists>r. fst (predict_url example_globals ''https://google.com/'' None example_world) = Inr r
          \<and> map_of r ''prediction'' = Some (JStr ''benign'')
          \<and> map_of r ''probability_malicious'' = Some (JNum 0.01)
          \<and> map_of r ''source'' = Some (JStr ''whitelist''))
   \<and> scorer_calls (snd (predict_url example_globals ''https://google.com/'' None example_world)) = []
   \<and> predict_url (example_globals\<lparr>predict_proba := \<lambda>u. Inl ScorerError\<rparr>)
         ''https://google.com/'' None example_world
       = predict_url example_globals ''https://google.com/'' None example_world"
proof -
  have w: "scorer_calls example_world = []" by (simp add: example_world_def)
  note th = trust_override [OF is_trusted_example, of None example_world]
  from th have 1: "\<exists>r. fst (predict_url example_globals ''https://google.com/'' None example_world) = Inr r
          \<and> map_of r ''prediction'' = Some (JStr ''benign'')
          \<and> map_of r ''probability_malicious'' = Some (JNum 0.01)
          \<and> map_of r ''source'' = Some (JStr ''whitelist'')" by (rule conjunct1)
  from th w have 2: "scorer_calls (snd (predict_url example_globals ''https://google.com/'' None example_world)) = []"
    by (simp only:)
  from th have 3: "predict_url (example_globals\<lparr>predict_proba := \<lambda>u. Inl ScorerError\<rparr>)
         ''https://google.com/'' None example_world
       = predict_url example_globals ''https://google.com/'' None example_world" by blast
  from is_trusted_example 1 2 3 show ?thesis by (intro conjI)
qed

lemma predict_url_trusted_fields:
  assumes t: "is_trusted_domain g (strip data_url)"
  shows "\<exists>r. fst (predict_url g data_url c w) = Inr r
          \<and> map_of r ''url'' = Some (JStr (strip data_url))
          \<and> map_of r ''prediction'' = Some (JStr ''benign'')
          \<and> map_of r ''source'' = Some (JStr ''whitelist'')"
  unfolding predict_url_trusted_eq [OF t] fst_conv
  by (rule exI, intro conjI, rule refl) (rule response_fields [OF refl])+

lemma predict_url_model_fields:
  assumes t: "\<not> is_trusted_domain g (strip data_url)"
      and p: "predict_proba g (strip data_url) = Inr p"
  shows "\<exists>r. fst (predict_url g data_url c w) = Inr r
          \<and> map_of r ''url'' = Some (JStr (strip data_url))
          \<and> map_of r ''probability_malicious'' = Some (JNum p)
          \<and> map_of r ''prediction'' = Some (JStr (classify_proba g p))
          \<and> map_of r ''source'' = Some (JStr ''model'')"
  unfolding predict_url_model_eq [OF t p] fst_conv
  by (rule exI, intro conjI, rule refl) (rule response_fields [OF refl])+

lemma strip_paypal:
  "strip ''http://secure-paypal-login.example.com'' = ''http://secure-paypal-login.example.com''"
  by code_simp

lemma resolve_paypal:
  "extract_base_domain g ''http://secure-paypal-login.example.com''
     = ''secure-paypal-login.example.com''"
  by code_simp

lemma paypal_not_trusted_main:
  "TRUSTED_DOMAINS g = TRUSTED_DOMAINS_main \<Longrightarrow>
   \<not> is_trusted_domain g (strip ''http://secure-paypal-login.example.com'')"
  by (simp add: strip_paypal is_trusted_domain_main resolve_paypal TRUSTED_DOMAINS_main_def)

lemma predict_url_model_labels:
  assumes t: "\<not> is_trusted_domain g (strip data_url)"
      and p: "predict_proba g (strip data_url) = Inr p"
  shows "\<exists>r. fst (predict_url g data_url c w) = Inr r
          \<and> map_of r ''probability_malicious'' = Some (JNum p)
          \<and> map_of r ''prediction''
              = Some (JStr (if p \<ge> T_MAL g then ''malicious''
                            else if p \<le> T_SAFE g then ''benign'' else ''suspicious''))
          \<and> map_of r ''source'' = Some (JStr ''model'')"
  unfolding predict_url_model_eq [OF t p] fst_conv classify_proba_def
  by (rule exI, intro conjI, rule refl) (rule response_fields [OF refl])+

text \<open>
  C6. When the resolved domain is not trusted and the scorer returns \<open>p\<close> on the URL,
  the response has probability \<open>p\<close>, source \<open>model\<close>, and the prediction that the
  thresholds give for \<open>p\<close>: \<open>malicious\<close> when \<open>p\<close> is at least \<open>T_MAL\<close>, else \<open>benign\<close> when
  \<open>p\<close> is at most \<open>T_SAFE\<close>, else \<open>suspicious\<close>; this is the value of \<open>classify_proba\<close>.
  With the trusted set of \<open>main.py\<close>, thresholds 0.3 and 0.7 and a scorer that returns
  0.92, the URL \<open>http://secure-paypal-login.example.com\<close> is malicious with source
  \<open>model\<close>.
\<close>

theorem model_path:
  "(\<not> is_trusted_domain g (strip data_url) \<and> predict_proba g (strip data_url) = Inr p \<longrightarrow>
      (\<exists>r. fst (predict_url g data_url c w) = Inr r
           \<and> map_of r ''probability_malicious'' = Some (JNum p)
           \<and> map_of r ''prediction''
               = Some (JStr (if p \<ge> T_MAL g then ''malicious''
                             else if p \<le> T_SAFE g then ''benign'' else ''suspicious''))
           \<and> map_of r ''source'' = Some (JStr ''model'')))
   \<and> classify_proba g p
       = (if p \<ge> T_MAL g then ''malicious'' else if p \<le> T_SAFE g then ''benign'' else ''suspicious'')
   \<and> (TRUSTED_DOMAINS g = TRUSTED_DOMAINS_main \<and> T_SAFE g = 0.3 \<and> T_MAL g = 0.7
        \<and> predict_proba g ''http://secure-paypal-login.example.com'' = Inr 0.92 \<longrightarrow>
      (\<exists>r. fst (predict_url g ''http://secure-paypal-login.example.com'' c w) = Inr r
           \<and> map_of r ''prediction'' = Some (JStr ''malicious'')
           \<and> map_of r ''source'' = Some (JStr ''model'')))"
proof (intro conjI impI)
  assume a: "\<not> is_trusted_domain g (strip data_url) \<and> predict_proba g (strip data_url) = Inr p"
  show "\<exists>r. fst (predict_url g data_url c w) = Inr r
           \<and> map_of r ''probability_malicious'' = Some (JNum p)
           \<and> map_of r ''prediction''
               = Some (JStr (if p \<ge> T_MAL g then ''malicious''
                             else if p \<le> T_SAFE g then ''benign'' else ''suspicious''))
           \<and> map_of r ''source'' = Some (JStr ''model'')"
    by (rule predict_url_model_labels [OF a [THEN conjunct1] a [THEN conjunct2]])
next
  show "classify_proba g p
       = (if p \<ge> T_MAL g then ''malicious'' else if p \<le> T_SAFE g then ''benign'' else ''suspicious'')"
    by (simp only: classify_proba_def)
next
  let ?u = "''http://secure-paypal-login.example.com''"
  assume a: "TRUSTED_DOMAINS g = TRUSTED_DOMAINS_main \<and> T_SAFE g = 0.3 \<and> T_MAL g = 0.7
        \<and> predict_proba g ?u = Inr 0.92"
  then have n: "\<not> is_trusted_domain g (strip ?u)"
    by (simp add: paypal_not_trusted_main)
  from a have s: "predict_proba g (strip ?u) = Inr 0.92"
    by (simp only: strip_paypal)
  from a have m: "classify_proba g 0.92 = ''malicious''"
    by (simp add: classify_proba_def)
  from predict_url_model_fields [OF n s, of c w] m
  show "\<exists>r. fst (predict_url g ?u c w) = Inr r
           \<and> map_of r ''prediction'' = Some (JStr ''malicious'')
           \<and> map_of r ''source'' = Some (JStr ''model'')"
    by auto
qed

theorem model_path_witness:
  "(\<not> is_trusted_domain example_globals (strip ''http://secure-paypal-login.example.com'')
    \<and> predict_proba example_globals (strip ''http://secure-paypal-login.example.com'') = Inr 0.92
    \<and> TRUSTED_DOMAINS example_globals = TRUSTED_DOMAINS_main
    \<and> T_SAFE example_globals = 0.3 \<and> T_MAL example_globals = 0.7)
   \<and> (\<exists>r. fst (predict_url example_globals ''http://secure-paypal-login.example.com''
                  None example_world) = Inr r
          \<and> map_of r ''probability_malicious'' = Some (JNum 0.92)
          \<and> map_of r ''prediction'' = Some (JStr ''malicious'')
          \<and> map_of r ''source'' = Some (JStr ''model''))
   \<and> classify_proba example_globals 0.92 = ''malicious''
   \<and> classify_proba example_globals 0.5 = ''suspicious''
   \<and> classify_proba example_globals 0.1 = ''benign''"
proof -
  let ?u = "''http://secure-paypal-login.example.com''"
  have f: "TRUSTED_DOMAINS example_globals = TRUSTED_DOMAINS_main"
    "T_SAFE example_globals = 0.3" "T_MAL example_globals = 0.7"
    "predict_proba example_globals (strip ?u) = Inr 0.92"
    by (simp_all add: example_globals_fields)
  have n: "\<not> is_trusted_domain example_globals (strip ?u)"
    using f(1) by (rule paypal_not_trusted_main)
  have m: "(if (0.92 :: real) \<ge> T_MAL example_globals then ''malicious''
            else if 0.92 \<le> T_SAFE example_globals then ''benign'' else ''suspicious'')
           = ''malicious''"
    by (simp add: example_globals_fields)
  have m5: "(if (0.5 :: real) \<ge> T_MAL example_globals then ''malicious''
            else if 0.5 \<le> T_SAFE example_globals then ''benign'' else ''suspicious'')
           = ''suspicious''"
    by (simp add: example_globals_fields)
  have m1: "(if (0.1 :: real) \<ge> T_MAL example_globals then ''malicious''
            else if 0.1 \<le> T_SAFE example_globals then ''benign'' else ''suspicious'')
           = ''benign''"
    by (simp add: example_globals_fields)
  note th = model_path [of example_globals ?u "0.92" None example_world]
  note r = th [THEN conjunct1, rule_format, OF conjI [OF n f(4)], unfolded m]
  note c = th [THEN conjunct2, THEN conjunct1, unfolded m]
  note c5 = model_path [of example_globals ?u "0.5" None example_world,
                        THEN conjunct2, THEN conjunct1, unfolded m5]
  note c1 = model_path [of example_globals ?u "0.1" None example_world,
                        THEN conjunct2, THEN conjunct1, unfolded m1]
  have h: "\<not> is_trusted_domain example_globals (strip ?u)
    \<and> predict_proba example_globals (strip ?u) = Inr 0.92
    \<and> TRUSTED_DOMAINS example_globals = TRUSTED_DOMAINS_main
    \<and> T_SAFE example_globals = 0.3 \<and> T_MAL example_globals = 0.7"
    by (rule conjI [OF n conjI [OF f(4) conjI [OF f(1) conjI [OF f(2) f(3)]]]])
  show ?thesis
    by (rule conjI [OF h conjI [OF r conjI [OF c conjI [OF c5 c1]]]])
qed

text \<open>
  C7. \<open>predict_url\<close> ends with an error exactly when the domain is not trusted and the
  scorer raises that error; then no response is built and nothing is logged. Every
  response carries one of the three labels, which is \<open>benign\<close> from the whitelist or
  the label \<open>classify_proba\<close> gives for the probability the scorer returned.
\<close>

theorem scorer_failure_propagates:
  "(fst (predict_url g data_url c w) = Inl e \<longleftrightarrow>
      \<not> is_trusted_domain g (strip data_url) \<and> predict_proba g (strip data_url) = Inl e)
   \<and> (fst (predict_url g data_url c w) = Inl e \<longrightarrow>
        audit_log (snd (predict_url g data_url c w)) = audit_log w)
   \<and> (\<forall>r. fst (predict_url g data_url c w) = Inr r \<longrightarrow>
        (\<exists>l \<in> {''benign'', ''suspicious'', ''malicious''}. map_of r ''prediction'' = Some (JStr l))
        \<and> ((is_trusted_domain g (strip data_url) \<and> map_of r ''prediction'' = Some (JStr ''benign''))
           \<or> (\<exists>p. \<not> is_trusted_domain g (strip data_url)
                  \<and> predict_proba g (strip data_url) = Inr p
                  \<and> map_of r ''prediction'' = Some (JStr (classify_proba g p)))))"
proof (cases "is_trusted_domain g (strip data_url)")
  case True
  from predict_url_trusted_fields [OF True, of c w] True show ?thesis
    by auto
next
  case False
  show ?thesis
  proof (cases "predict_proba g (strip data_url)")
    case (Inl e')
    from predict_url_scorer_fails [OF False Inl, of c w] False Inl show ?thesis
      by simp
  next
    case (Inr p)
    have l: "classify_proba g p \<in> {''benign'', ''suspicious'', ''malicious''}"
      by (simp add: classify_proba_def)
    from predict_url_model_fields [OF False Inr, of c w] False Inr l show ?thesis
      by auto
  qed
qed

theorem scorer_failure_propagates_witness:
  "(\<not> is_trusted_domain (example_globals\<lparr>predict_proba := \<lambda>u. Inl ScorerError\<rparr>)
         (strip ''http://secure-paypal-login.example.com'')
    \<and> predict_proba (example_globals\<lparr>predict_proba := \<lambda>u. Inl ScorerError\<rparr>)
         (strip ''http://secure-paypal-login.example.com'') = Inl ScorerError
    \<and> fst (predict_url (example_globals\<lparr>predict_proba := \<lambda>u. Inl ScorerError\<rparr>)
              ''http://secure-paypal-login.example.com'' None example_world) = Inl ScorerError
    \<and> audit_log (snd (predict_url (example_globals\<lparr>predict_proba := \<lambda>u. Inl ScorerError\<rparr>)
              ''http://secure-paypal-login.example.com'' None example_world)) = [])
   \<and> (\<exists>r. fst (predict_url example_globals ''https://google.com/'' None example_world) = Inr r
          \<and> is_trusted_domain example_globals (strip ''https://google.com/'')
          \<and> map_of r ''prediction'' = Some (JStr ''benign''))"
proof -
  let ?g = "example_globals\<lparr>predict_proba := \<lambda>u. Inl ScorerError\<rparr>"
  let ?u = "''http://secure-paypal-login.example.com''"
  have "TRUSTED_DOMAINS ?g = TRUSTED_DOMAINS_main"
    by (simp add: example_globals_fields)
  then have n: "\<not> is_trusted_domain ?g (strip ?u)"
    by (rule paypal_not_trusted_main)
  have s: "predict_proba ?g (strip ?u) = Inl ScorerError" by simp
  have w: "audit_log example_world = []" by (simp add: example_world_def)
  note th = scorer_failure_propagates [of ?g ?u None example_world ScorerError]
  from th n s have 1: "fst (predict_url ?g ?u None example_world) = Inl ScorerError"
    by blast
  with th have "audit_log (snd (predict_url ?g ?u None example_world)) = audit_log example_world"
    by blast
  with w have 2: "audit_log (snd (predict_url ?g ?u None example_world)) = []"
    by (simp only:)
  from predict_url_trusted_fields [OF is_trusted_example, of None example_world]
  obtain r where r: "fst (predict_url example_globals ''https://google.com/'' None example_world) = Inr r"
    by blast
  note th2 = scorer_failure_propagates
               [of example_globals "''https://google.com/''" None example_world ScorerError]
  from th2 r is_trusted_example have "map_of r ''prediction'' = Some (JStr ''benign'')"
    by blast
  with r is_trusted_example
  have 3: "\<exists>r. fst (predict_url example_globals ''https://google.com/'' None example_world) = Inr r
          \<and> is_trusted_domain example_globals (strip ''https://google.com/'')
          \<and> map_of r ''prediction'' = Some (JStr ''benign'')"
    by blast
  from n s 1 2 3 show ?thesis by (intro conjI)
qed

lemma map_of_filter_other_key:
  "k \<noteq> k0 \<Longrightarrow> map_of (filter (\<lambda>kv. fst kv \<noteq> k0) r) k = map_of r k"
  by (induction r) auto

lemma apart_from_timestamp_predict_url:
  "apart_from_timestamp (fst (predict_url g data_url c w)) =
     (if is_trusted_domain g (strip data_url)
      then Inr [(''url'', JStr (strip data_url)),
                (''domain'', JStr (extract_base_domain g (strip data_url))),
                (''trusted_domain'', JBool True), (''prediction'', JStr ''benign''),
                (''probability_malicious'', JNum 0.01), (''thresholds'', thresholds g),
                (''model_version'', JStr (MODEL_VERSION g)), (''source'', JStr ''whitelist'')]
      else case predict_proba g (strip data_url) of
             Inl e \<Rightarrow> Inl e
           | Inr p \<Rightarrow>
               Inr [(''url'', JStr (strip data_url)),
                    (''domain'', JStr (extract_base_domain g (strip data_url))),
                    (''trusted_domain'', JBool False),
                    (''prediction'', JStr (classify_proba g p)),
                    (''probability_malicious'', JNum p), (''thresholds'', thresholds g),
                    (''model_version'', JStr (MODEL_VERSION g)), (''source'', JStr ''model'')])"
proof (cases "is_trusted_domain g (strip data_url)")
  case True
  show ?thesis
    unfolding predict_url_trusted_eq [OF True] fst_conv apart_from_timestamp_def sum.case
      response_fields(7) [OF refl]
    using True by simp
next
  case False
  show ?thesis
  proof (cases "predict_proba g (strip data_url)")
    case (Inl e)
    show ?thesis
      unfolding predict_url_scorer_fails [OF False Inl] fst_conv apart_from_timestamp_def sum.case
      using False Inl by simp
  next
    case (Inr p)
    show ?thesis
      unfolding predict_url_model_eq [OF False Inr] fst_conv apart_from_timestamp_def sum.case
        response_fields(7) [OF refl]
      using False Inr by simp
  qed
qed

lemma apart_from_timestamp_fields:
  assumes "apart_from_timestamp (Inr r1) = apart_from_timestamp (Inr r2)" "k \<noteq> ''timestamp''"
  shows "map_of r1 k = map_of r2 k"
proof -
  from assms(1) have "filter (\<lambda>kv. fst kv \<noteq> ''timestamp'') r1 = filter (\<lambda>kv. fst kv \<noteq> ''timestamp'') r2"
    by (simp add: apart_from_timestamp_def)
  then have "map_of (filter (\<lambda>kv. fst kv \<noteq> ''timestamp'') r1) k
             = map_of (filter (\<lambda>kv. fst kv \<noteq> ''timestamp'') r2) k"
    by (rule arg_cong)
  with assms(2) show ?thesis by (simp add: map_of_filter_other_key)
qed

text \<open>
  C8. Two evaluations of the same URL under the same globals, whatever the client, the
  clock and the log, end with the same error or with responses that agree on every
  entry other than \<open>timestamp\<close>.
\<close>

theorem predict_url_deterministic:
  "apart_from_timestamp (fst (predict_url g data_url c1 w1))
     = apart_from_timestamp (fst (predict_url g data_url c2 w2))
   \<and> (\<forall>r1 r2 k. fst (predict_url g data_url c1 w1) = Inr r1
          \<and> fst (predict_url g data_url c2 w2) = Inr r2 \<and> k \<noteq> ''timestamp''
        \<longrightarrow> map_of r1 k = map_of r2 k)"
proof -
  have eq: "apart_from_timestamp (fst (predict_url g data_url c1 w1))
     = apart_from_timestamp (fst (predict_url g data_url c2 w2))"
    by (simp only: apart_from_timestamp_predict_url)
  have "map_of r1 k = map_of r2 k"
    if "fst (predict_url g data_url c1 w1) = Inr r1" "fst (predict_url g data_url c2 w2) = Inr r2"
       "k \<noteq> ''timestamp''" for r1 r2 k
    using eq that apart_from_timestamp_fields by metis
  with eq show ?thesis by blast
qed

lemma predict_url_succeeds_trusted:
  assumes t: "is_trusted_domain g (strip data_url)"
  shows "\<exists>r. fst (predict_url g data_url c w) = Inr r"
  unfolding predict_url_trusted_eq [OF t] fst_conv by (rule exI, rule refl)

theorem predict_url_deterministic_witness:
  "apart_from_timestamp (fst (predict_url example_globals ''https://google.com/'' None example_world))
     = apart_from_timestamp (fst (predict_url example_globals ''https://google.com/'' (Some ''10.0.0.7'')
          (example_world\<lparr>utcnow := ''2026-11-04T11:30:00''\<rparr>)))
   \<and> (\<exists>r. fst (predict_url example_globals ''https://google.com/'' None example_world) = Inr r)
   \<and> (\<exists>r. fst (predict_url example_globals ''https://google.com/'' (Some ''10.0.0.7'')
                 (example_world\<lparr>utcnow := ''2026-11-04T11:30:00''\<rparr>)) = Inr r)
   \<and> ''prediction'' \<noteq> ''timestamp''
   \<and> map_of (projr (fst (predict_url example_globals ''https://google.com/'' None example_world)))
         ''prediction''
       = map_of (projr (fst (predict_url example_globals ''https://google.com/'' (Some ''10.0.0.7'')
                 (example_world\<lparr>utcnow := ''2026-11-04T11:30:00''\<rparr>)))) ''prediction''"
proof -
  let ?u = "''https://google.com/''"
  let ?w2 = "example_world\<lparr>utcnow := ''2026-11-04T11:30:00''\<rparr>"
  let ?A = "fst (predict_url example_globals ?u None example_world)"
  let ?B = "fst (predict_url example_globals ?u (Some ''10.0.0.7'') ?w2)"
  note th = predict_url_deterministic [of example_globals ?u None example_world "Some ''10.0.0.7''" ?w2]
  note th1 = th [THEN conjunct1]
  note th2 = th [THEN conjunct2, rule_format]
  note e1 = predict_url_succeeds_trusted [OF is_trusted_example, of None example_world]
  note e2 = predict_url_succeeds_trusted [OF is_trusted_example, of "Some ''10.0.0.7''" ?w2]
  from e1 obtain r1 where "?A = Inr r1" by (rule exE)
  then have a: "?A = Inr (projr ?A)" by (simp only: sum.sel)
  from e2 obtain r2 where "?B = Inr r2" by (rule exE)
  then have b: "?B = Inr (projr ?B)" by (simp only: sum.sel)
  have k: "''prediction'' \<noteq> ''timestamp''" by simp
  have m: "map_of (projr ?A) ''prediction'' = map_of (projr ?B) ''prediction''"
    by (rule th2 [OF conjI [OF a conjI [OF b k]]])
  show ?thesis
    by (rule conjI [OF th1 conjI [OF e1 conjI [OF e2 conjI [OF k m]]]])
qed

section \<open>Inputs without a network location\<close>

lemma empty_domain_not_trusted:
  assumes "extract_base_domain g url = []" "[] \<notin> TRUSTED_DOMAINS g"
  shows "\<not> is_trusted_domain g url"
proof -
  have "\<not> (startswith t ''.'' \<and> endswith [] t)" for t
    by (auto simp add: startswith_def endswith_def)
  with assms show ?thesis by (simp add: is_trusted_domain_iff)
qed

lemma extract_base_domain_empty_netloc:
  "urlparse_netloc g url = Inr [] \<Longrightarrow> extract_base_domain g url = []"
  by (simp add: extract_base_domain_def lower_def startswith_def)

lemma TRUSTED_DOMAINS_main_no_empty: "[] \<notin> TRUSTED_DOMAINS_main"
  by (simp add: TRUSTED_DOMAINS_main_def)

lemma predict_url_untrusted_path:
  assumes n: "\<not> is_trusted_domain g (strip data_url)"
  shows "scorer_calls (snd (predict_url g data_url c w)) = scorer_calls w @ [strip data_url]
         \<and> (\<forall>r. fst (predict_url g data_url c w) = Inr r \<longrightarrow>
               map_of r ''source'' = Some (JStr ''model'')
               \<and> map_of r ''trusted_domain'' = Some (JBool False)
               \<and> map_of r ''domain'' = Some (JStr (extract_base_domain g (strip data_url))))"
proof (cases "predict_proba g (strip data_url)")
  case (Inl e)
  show ?thesis unfolding predict_url_scorer_fails [OF n Inl] by simp
next
  case (Inr p)
  show ?thesis
    unfolding predict_url_model_eq [OF n Inr] fst_conv snd_conv
    by (simp add: response_fields [OF refl] del: map_of.simps)
qed

text \<open>
  C9. An input without \<open>/\<close> (a bare host name, other text) is accepted by \<open>urlparse\<close>
  with an empty \<open>netloc\<close>. For every input that \<open>urlparse\<close> accepts with an empty
  \<open>netloc\<close>, the resolved domain is the empty string; unless the empty string is itself
  in the trusted set, the input is not trusted, even if the input is a member of the
  set, and \<open>predict_url\<close> calls the scorer on it and answers with source \<open>model\<close>. The
  set of \<open>main.py\<close> does not hold the empty string.
\<close>

theorem no_netloc_never_trusted:
  "(CHR ''/'' \<notin> set url \<longrightarrow> urlparse_netloc g url = Inr [])
   \<and> (urlparse_netloc g url = Inr [] \<longrightarrow> extract_base_domain g url = [])
   \<and> (urlparse_netloc g url = Inr [] \<and> [] \<notin> TRUSTED_DOMAINS g \<longrightarrow>
        \<not> is_trusted_domain g url
        \<and> (strip data_url = url \<longrightarrow>
             scorer_calls (snd (predict_url g data_url c w)) = scorer_calls w @ [url]
             \<and> (\<forall>r. fst (predict_url g data_url c w) = Inr r \<longrightarrow>
                   map_of r ''source'' = Some (JStr ''model'')
                   \<and> map_of r ''trusted_domain'' = Some (JBool False)
                   \<and> map_of r ''domain'' = Some (JStr []))))
   \<and> [] \<notin> TRUSTED_DOMAINS_main"
proof (intro conjI impI)
  assume "CHR ''/'' \<notin> set url"
  then show "urlparse_netloc g url = Inr []" by (rule urlparse_netloc_no_slash)
next
  assume "urlparse_netloc g url = Inr []"
  then show "extract_base_domain g url = []" by (rule extract_base_domain_empty_netloc)
next
  assume a: "urlparse_netloc g url = Inr [] \<and> [] \<notin> TRUSTED_DOMAINS g"
  then have e: "extract_base_domain g url = []" by (simp add: extract_base_domain_empty_netloc)
  with a show n: "\<not> is_trusted_domain g url" by (simp add: empty_domain_not_trusted)
  assume s: "strip data_url = url"
  with n have "\<not> is_trusted_domain g (strip data_url)" by simp
  from predict_url_untrusted_path [OF this, of c w] s e
  show "scorer_calls (snd (predict_url g data_url c w)) = scorer_calls w @ [url]"
    and "\<forall>r. fst (predict_url g data_url c w) = Inr r \<longrightarrow>
                   map_of r ''source'' = Some (JStr ''model'')
                   \<and> map_of r ''trusted_domain'' = Some (JBool False)
                   \<and> map_of r ''domain'' = Some (JStr [])"
    by simp_all
next
  show "[] \<notin> TRUSTED_DOMAINS_main" by (rule TRUSTED_DOMAINS_main_no_empty)
qed

lemma strip_bare_google: "strip ''google.com'' = ''google.com''"
  by code_simp

theorem no_netloc_never_trusted_witness:
  "CHR ''/'' \<notin> set ''google.com''
   \<and> urlparse_netloc example_globals ''google.com'' = Inr []
   \<and> [] \<notin> TRUSTED_DOMAINS example_globals
   \<and> ''google.com'' \<in> TRUSTED_DOMAINS example_globals
   \<and> strip ''google.com'' = ''google.com''
   \<and> extract_base_domain example_globals ''google.com'' = []
   \<and> \<not> is_trusted_domain example_globals ''google.com''
   \<and> scorer_calls (snd (predict_url example_globals ''google.com'' None example_world))
       = [''google.com'']"
proof -
  let ?u = "''google.com''"
  note th = no_netloc_never_trusted [of ?u example_globals ?u None example_world]
  have s: "CHR ''/'' \<notin> set ?u" by simp
  have p: "urlparse_netloc example_globals ?u = Inr []"
    by (rule th [THEN conjunct1, rule_format, OF s])
  have t: "[] \<notin> TRUSTED_DOMAINS example_globals"
    by (simp add: example_globals_fields TRUSTED_DOMAINS_main_no_empty)
  have m: "?u \<in> TRUSTED_DOMAINS example_globals"
    by (simp add: example_globals_fields TRUSTED_DOMAINS_main_def)
  have e: "extract_base_domain example_globals ?u = []"
    by (rule th [THEN conjunct2, THEN conjunct1, rule_format, OF p])
  note th3 = th [THEN conjunct2, THEN conjunct2, THEN conjunct1, rule_format, OF conjI [OF p t]]
  have n: "\<not> is_trusted_domain example_globals ?u"
    by (rule th3 [THEN conjunct1])
  have "scorer_calls (snd (predict_url example_globals ?u None example_world))
          = scorer_calls example_world @ [?u]"
    by (rule th3 [THEN conjunct2, rule_format, OF strip_bare_google, THEN conjunct1])
  then have c: "scorer_calls (snd (predict_url example_globals ?u None example_world)) = [?u]"
    by (simp add: example_world_def)
  from s p t m strip_bare_google e n c show ?thesis by (intro conjI)
qed

section \<open>Surrounding white space\<close>

lemma predict_url_strip_cong:
  "strip u1 = strip u2 \<Longrightarrow> predict_url g u1 c w = predict_url g u2 c w"
  by (simp add: predict_url_def)

lemma predict_url_url_fields:
  assumes "fst (predict_url g data_url c w) = Inr r"
  shows "map_of r ''url'' = Some (JStr (strip data_url))
         \<and> (\<exists>entry. audit_log (snd (predict_url g data_url c w)) = audit_log w @ [entry]
                \<and> map_of entry ''url'' = Some (JStr (strip data_url)))"
proof (cases "is_trusted_domain g (strip data_url)")
  case True
  from assms show ?thesis
    unfolding predict_url_trusted_eq [OF True] fst_conv snd_conv
    by (auto simp add: response_fields [OF refl] log_entry_url [OF refl] simp del: map_of.simps)
next
  case False
  show ?thesis
  proof (cases "predict_proba g (strip data_url)")
    case (Inl e)
    from assms show ?thesis
      unfolding predict_url_scorer_fails [OF False Inl] by simp
  next
    case (Inr p)
    from assms show ?thesis
      unfolding predict_url_model_eq [OF False Inr] fst_conv snd_conv
      by (auto simp add: response_fields [OF refl] log_entry_url [OF refl] simp del: map_of.simps)
  qed
qed

lemma strip_decompose:
  "\<exists>pre post. s = pre @ strip s @ post \<and> list_all isspace pre \<and> list_all isspace post"
proof -
  let ?t = "dropWhile isspace s"
  let ?post = "rev (takeWhile isspace (rev ?t))"
  have "rev ?t = takeWhile isspace (rev ?t) @ dropWhile isspace (rev ?t)" by simp
  then have "rev (rev ?t) = rev (takeWhile isspace (rev ?t) @ dropWhile isspace (rev ?t))"
    by (rule arg_cong)
  then have t: "?t = strip s @ ?post"
    by (simp only: rev_rev_ident rev_append strip_def)
  have "takeWhile isspace s @ ?t = s" by simp
  with t have 1: "s = takeWhile isspace s @ strip s @ ?post" by metis
  have 2: "list_all isspace (takeWhile isspace s)"
    by (auto simp add: list_all_iff dest: set_takeWhileD)
  have 3: "list_all isspace ?post"
    by (auto simp add: list_all_iff dest: set_takeWhileD)
  from 1 2 3 show ?thesis by blast
qed

lemma strip_ends:
  "strip s = [] \<or> (\<not> isspace (hd (strip s)) \<and> \<not> isspace (last (strip s)))"
proof (cases "strip s = []")
  case True
  then show ?thesis by simp
next
  case False
  let ?t = "dropWhile isspace s"
  let ?u = "dropWhile isspace (rev ?t)"
  have su: "strip s = rev ?u" by (simp add: strip_def)
  with False have u: "?u \<noteq> []" by simp
  then have "\<not> isspace (hd ?u)" by (rule hd_dropWhile)
  with u have l: "\<not> isspace (last (strip s))" unfolding su by (simp add: last_rev)
  have "?t = [] \<or> \<not> isspace (hd ?t)"
    using hd_dropWhile [of isspace s] by blast
  then have "dropWhile isspace (rev ?u) = rev ?u" by (rule rstrip_keeps_head)
  then have "dropWhile isspace (strip s) = strip s" unfolding su .
  with False have h: "\<not> isspace (hd (strip s))" by (simp add: dropWhile_eq_self_iff)
  from h l show ?thesis by simp
qed

lemma strip_clean:
  assumes "s = [] \<or> (\<not> isspace (hd s) \<and> \<not> isspace (last s))"
  shows "strip s = s"
proof (cases "s = []")
  case True
  then show ?thesis by (simp add: strip_def)
next
  case False
  with assms have h: "\<not> isspace (hd s)" and l: "\<not> isspace (last s)" by simp_all
  from h have 1: "dropWhile isspace s = s" by (simp add: dropWhile_eq_self_iff)
  from False l have "\<not> isspace (hd (rev s))" by (simp add: hd_rev)
  then have 2: "dropWhile isspace (rev s) = rev s" by (simp add: dropWhile_eq_self_iff)
  show ?thesis by (simp add: strip_def 1 2)
qed

lemma isspace_code_points:
  "isspace ch \<longleftrightarrow> (of_char ch :: nat) \<in> {9, 10, 11, 12, 13, 28, 29, 30, 31, 32, 133, 160}"
  by (simp add: isspace_def code_point_def Let_def) arith

text \<open>
  C10. \<open>strip\<close> removes white space (the characters 9 to 13, 28 to 32, 133 and 160) at
  the two ends of its input and nothing else: the input is the stripped text between
  two runs of white space, the stripped text neither begins nor ends with white space,
  and a text that neither begins nor ends with white space comes back unchanged from
  any white space put around it. \<open>predict_url\<close> works on the stripped input only: it
  gives the same result on the input and on the stripped input. The \<open>url\<close> entry of the
  response and of the record it logs is the stripped input. An input with white space
  added at either end gives the same result, and under another client, clock and log
  the same decision apart from the \<open>timestamp\<close>.
\<close>

theorem predict_url_strips_input:
  "predict_url g data_url c w = predict_url g (strip data_url) c w
   \<and> (\<forall>r. fst (predict_url g data_url c w) = Inr r \<longrightarrow>
         map_of r ''url'' = Some (JStr (strip data_url))
         \<and> (\<exists>entry. audit_log (snd (predict_url g data_url c w)) = audit_log w @ [entry]
                \<and> map_of entry ''url'' = Some (JStr (strip data_url))))
   \<and> (list_all isspace a \<and> list_all isspace b \<longrightarrow>
         predict_url g (a @ data_url @ b) c w = predict_url g data_url c w
         \<and> apart_from_timestamp (fst (predict_url g (a @ data_url @ b) c1 w1))
             = apart_from_timestamp (fst (predict_url g data_url c2 w2))
         \<and> strip (a @ data_url @ b) = strip data_url
         \<and> (data_url = [] \<or> (\<not> isspace (hd data_url) \<and> \<not> isspace (last data_url))
              \<longrightarrow> strip (a @ data_url @ b) = data_url))
   \<and> (\<exists>pre post. data_url = pre @ strip data_url @ post
         \<and> list_all isspace pre \<and> list_all isspace post)
   \<and> (strip data_url = []
       \<or> (\<not> isspace (hd (strip data_url)) \<and> \<not> isspace (last (strip data_url))))
   \<and> (isspace ch \<longleftrightarrow> (of_char ch :: nat) \<in> {9, 10, 11, 12, 13, 28, 29, 30, 31, 32, 133, 160})"
proof (intro conjI allI impI)
  show "predict_url g data_url c w = predict_url g (strip data_url) c w"
    by (rule predict_url_strip_cong) (simp add: strip_idem)
next
  fix r assume r: "fst (predict_url g data_url c w) = Inr r"
  from predict_url_url_fields [OF r]
  show "map_of r ''url'' = Some (JStr (strip data_url))"
    and "\<exists>entry. audit_log (snd (predict_url g data_url c w)) = audit_log w @ [entry]
                \<and> map_of entry ''url'' = Some (JStr (strip data_url))"
    by simp_all
next
  assume "list_all isspace a \<and> list_all isspace b"
  then show s: "strip (a @ data_url @ b) = strip data_url"
    by (simp add: strip_surrounding)
  then show "predict_url g (a @ data_url @ b) c w = predict_url g data_url c w"
    by (rule predict_url_strip_cong)
  from s show "apart_from_timestamp (fst (predict_url g (a @ data_url @ b) c1 w1))
             = apart_from_timestamp (fst (predict_url g data_url c2 w2))"
    by (simp only: apart_from_timestamp_predict_url)
  assume "data_url = [] \<or> (\<not> isspace (hd data_url) \<and> \<not> isspace (last data_url))"
  then have "strip data_url = data_url" by (rule strip_clean)
  with s show "strip (a @ data_url @ b) = data_url" by simp
next
  show "\<exists>pre post. data_url = pre @ strip data_url @ post
         \<and> list_all isspace pre \<and> list_all isspace post"
    by (rule strip_decompose)
next
  show "strip data_url = []
       \<or> (\<not> isspace (hd (strip data_url)) \<and> \<not> isspace (last (strip data_url)))"
    by (rule strip_ends)
next
  show "isspace ch \<longleftrightarrow> (of_char ch :: nat) \<in> {9, 10, 11, 12, 13, 28, 29, 30, 31, 32, 133, 160}"
    by (rule isspace_code_points)
qed

lemma isspace_blank: "list_all isspace '' ''"
  by code_simp

lemma isspace_tab_newline: "list_all isspace [CHR 0x09, CHR 0x0A]"
  by code_simp

lemma google_url_ends:
  "''https://google.com/'' = []
   \<or> (\<not> isspace (hd ''https://google.com/'') \<and> \<not> isspace (last ''https://google.com/''))"
  by code_simp

lemma two_words_ends:
  "''a b'' = [] \<or> (\<not> isspace (hd ''a b'') \<and> \<not> isspace (last ''a b''))"
  by code_simp

theorem predict_url_strips_input_witness:
  "list_all isspace '' '' \<and> list_all isspace [CHR 0x09, CHR 0x0A]
   \<and> strip ('' '' @ ''https://google.com/'' @ [CHR 0x09, CHR 0x0A]) = ''https://google.com/''
   \<and> strip ('' '' @ ''a b'' @ [CHR 0x09, CHR 0x0A]) = ''a b''
   \<and> predict_url example_globals ('' '' @ ''https://google.com/'' @ [CHR 0x09, CHR 0x0A])
        None example_world
      = predict_url example_globals ''https://google.com/'' None example_world
   \<and> (\<exists>r. fst (predict_url example_globals ''https://google.com/'' None example_world) = Inr r)
   \<and> map_of (projr (fst (predict_url example_globals
                            ('' '' @ ''https://google.com/'' @ [CHR 0x09, CHR 0x0A])
                            None example_world)))
         ''url'' = Some (JStr ''https://google.com/'')
   \<and> (\<exists>entry. audit_log (snd (predict_url example_globals
                                  ('' '' @ ''https://google.com/'' @ [CHR 0x09, CHR 0x0A])
                                  None example_world)) = audit_log example_world @ [entry]
          \<and> map_of entry ''url'' = Some (JStr ''https://google.com/''))"
proof -
  let ?u = "''https://google.com/''"
  let ?v = "'' '' @ ?u @ [CHR 0x09, CHR 0x0A]"
  let ?A = "fst (predict_url example_globals ?u None example_world)"
  let ?B = "fst (predict_url example_globals ?v None example_world)"
  note sp = conjI [OF isspace_blank isspace_tab_newline]
  note th = predict_url_strips_input
              [of example_globals ?u None example_world "'' ''" "[CHR 0x09, CHR 0x0A]"]
  note th3 = th [THEN conjunct2, THEN conjunct2, THEN conjunct1, rule_format, OF sp]
  note 1 = th3 [THEN conjunct1]
  note s = th3 [THEN conjunct2, THEN conjunct2, THEN conjunct2, rule_format, OF google_url_ends]
  note s' = predict_url_strips_input
              [of example_globals "''a b''" None example_world "'' ''" "[CHR 0x09, CHR 0x0A]",
               THEN conjunct2, THEN conjunct2, THEN conjunct1, rule_format, OF sp,
               THEN conjunct2, THEN conjunct2, THEN conjunct2, rule_format, OF two_words_ends]
  note e = predict_url_succeeds_trusted [OF is_trusted_example, of None example_world]
  from e obtain r where "?A = Inr r" by (rule exE)
  then have "?B = Inr r" by (simp only: 1)
  then have b: "?B = Inr (projr ?B)" by (simp only: sum.sel)
  note tv = predict_url_strips_input
              [of example_globals ?v None example_world "'' ''" "[CHR 0x09, CHR 0x0A]"]
  note 2 = tv [THEN conjunct2, THEN conjunct1, rule_format, OF b, unfolded s]
  show ?thesis
    by (rule conjI [OF isspace_blank conjI [OF isspace_tab_newline
          conjI [OF s conjI [OF s' conjI [OF 1 conjI [OF e 2]]]]]])
qed

end
